theory Spec2Isabelle
  imports Complex_Main
begin

section \<open>The auto typewriter controller (src/main.js, class AutoTypewriter)\<close>

text \<open>
  The embedding covers the controller part of the class: the constructor's fields,
  \<open>setupConfiguration\<close> with its prompt loop, \<open>setupEventHandling\<close> and
  \<open>setupObserver\<close>, \<open>startTyping\<close> with the interval callback it installs,
  \<open>typeNextCharacter\<close>, \<open>togglePause\<close>, \<open>stop\<close> and \<open>getStatus\<close>.
  The overlay code (building the panel, dragging, theme, minimising, the one-second
  redraw) reads the session fields and calls the operations below from its buttons; of
  its own state only the field \<open>ui\<close>, which \<open>togglePause\<close> looks at, is kept.
  \<open>closeUI\<close> is \<open>stop\<close> followed by the assignment of \<open>null\<close> to \<open>ui\<close>.

  What the browser provides is made explicit:
  \<^item> the page, as far as the controller looks at it, is a record \<open>page\<close>;
  \<^item> \<open>Date.now()\<close> is an argument \<open>now\<close> of the operation that reads the clock;
  \<^item> \<open>prompt\<close> is the sequence of answers the user gives (a cancelled prompt is
    \<open>None\<close>, JavaScript's \<open>null\<close>);
  \<^item> the table of the active intervals that \<open>startTyping\<close> registered, the next timer
    handle and the list of events handed to \<open>dispatchEvent\<close> are fields of the state;
    the overlay's redraw interval, whose callback only reads the session, is not in
    the table;
  \<^item> the number type of \<open>msToWait\<close> is a type parameter \<open>'f\<close> and the division of two
    numbers is a parameter \<open>fdiv\<close>: the theorems hold for every division, in
    particular for IEEE 754 double division.
\<close>

subsection \<open>Data\<close>

type_synonym element = nat

datatype js_error = TypeError | Error string

text \<open>A call either returns or throws; in both cases the mutations made so far stay.\<close>

datatype 'a outcome = Returned 'a | Thrown js_error 'a

fun state_of :: "'a outcome \<Rightarrow> 'a" where
  "state_of (Returned s) = s"
| "state_of (Thrown e s) = s"

fun returned :: "'a outcome \<Rightarrow> bool" where
  "returned (Returned s) = True"
| "returned (Thrown e s) = False"

record page =
  startDialog :: "element option"
  startDialogDisplay :: string
  text_todo_1_child :: "element option"
  innerHTML :: "element \<Rightarrow> string"
  activeElement :: "element option"

record 'f config =
  charsPerTenMins :: int
  msToWait :: 'f
  targetElement :: "element option"
  startBox :: "element option"

record stats =
  charactersTyped :: int
  startTime :: "int option"
  lastTypedTime :: "int option"

record overlay =
  pauseBtn :: "string option"

datatype mutation_observer = Connected | Disconnected

record keyboard_event =
  eventType :: string
  key :: string
  keyCode :: nat
  altKey :: bool
  ctrlKey :: bool
  shiftKey :: bool
  metaKey :: bool
  bubbles :: bool
  cancelable :: bool

record 'f typewriter =
  isRunning :: bool
  isPaused :: bool
  intervalId :: "nat option"
  observer :: "mutation_observer option"
  config :: "'f config"
  ui :: "overlay option"
  stats :: stats
  timers :: "(nat \<times> 'f) list"
  nextTimerId :: nat
  dispatched :: "(element \<times> keyboard_event) list"

record 'f status =
  status_isRunning :: bool
  status_charsPerTenMins :: int
  status_msToWait :: 'f
  status_targetElement :: bool
  status_charactersTyped :: int
  status_timeRunning :: int

text \<open>
  The constructor's state, in a browser with no interval timer of the controller
  active. Timer handles are positive and never reused.
\<close>

definition constructor :: "'f::zero typewriter" where
  "constructor =
     \<lparr> isRunning = False, isPaused = False, intervalId = None, observer = None,
       config = \<lparr> charsPerTenMins = 0, msToWait = 0, targetElement = None, startBox = None \<rparr>,
       ui = None,
       stats = \<lparr> charactersTyped = 0, startTime = None, lastTypedTime = None \<rparr>,
       timers = [], nextTimerId = 1, dispatched = [] \<rparr>"

subsection \<open>parseInt and the prompt loop\<close>

text \<open>
  \<open>parseInt(x)\<close> with no radix: \<open>x\<close> is converted to a string (\<open>null\<close> becomes
  \<open>"null"\<close>), leading white space is dropped, then an optional sign, then an optional
  \<open>0x\<close>/\<open>0X\<close> that selects radix 16; the value is that of the longest prefix of digits
  of the radix, and \<open>NaN\<close> (here \<open>None\<close>) when that prefix is empty. Characters after
  the digits are ignored. The value is kept as an exact integer: the loop only compares
  it with 0 and 10000, which rounding to a double does not change, and a stored value
  is at most 10000.
\<close>

definition isStrWhiteSpaceChar :: "char \<Rightarrow> bool" where
  "isStrWhiteSpaceChar c \<longleftrightarrow>
     c \<in> set [CHR 0x09, CHR 0x0A, CHR 0x0B, CHR 0x0C, CHR 0x0D, CHR 0x20, CHR 0xA0]"

definition digitValue :: "nat \<Rightarrow> char \<Rightarrow> nat option" where
  "digitValue R c =
     (let n = (of_char c :: nat);
          d = (if 48 \<le> n \<and> n \<le> 57 then Some (n - 48)
               else if 97 \<le> n \<and> n \<le> 122 then Some (n - 87)
               else if 65 \<le> n \<and> n \<le> 90 then Some (n - 55)
               else None)
      in case d of None \<Rightarrow> None | Some v \<Rightarrow> if v < R then Some v else None)"

definition digitsValue :: "nat \<Rightarrow> string \<Rightarrow> nat" where
  "digitsValue R Z =
     foldl (\<lambda>a c. a * R + (case digitValue R c of None \<Rightarrow> 0 | Some v \<Rightarrow> v)) 0 Z"

definition parseInt :: "string option \<Rightarrow> int option" where
  "parseInt input =
     (let inputString = (case input of None \<Rightarrow> ''null'' | Some str \<Rightarrow> str);
          S = dropWhile isStrWhiteSpaceChar inputString;
          sign = (if take 1 S = ''-'' then - 1 else (1::int));
          S1 = (if take 1 S = ''+'' \<or> take 1 S = ''-'' then drop 1 S else S);
          hex = (take 2 S1 = ''0x'' \<or> take 2 S1 = ''0X'');
          R = (if hex then 16 else 10);
          S2 = (if hex then drop 2 S1 else S1);
          Z = takeWhile (\<lambda>c. digitValue R c \<noteq> None) S2
      in if Z = [] then None else Some (sign * int (digitsValue R Z)))"

text \<open>
  The loop condition of \<open>setupConfiguration\<close>:
  \<open>isNaN(charsPerTenMins) || charsPerTenMins <= 0 || charsPerTenMins > 10000\<close>.
\<close>

definition promptAgain :: "int option \<Rightarrow> bool" where
  "promptAgain v = (case v of None \<Rightarrow> True | Some n \<Rightarrow> n \<le> 0 \<or> n > 10000)"

text \<open>
  The \<open>do ... while\<close> loop: \<open>answers k\<close> is what the user answers to the prompt
  number \<open>k\<close>. The loop returns the accepted value and the number of prompts shown;
  it need not return, and then the result is \<open>None\<close>.
\<close>

partial_function (option) promptLoop :: "(nat \<Rightarrow> string option) \<Rightarrow> nat \<Rightarrow> (int \<times> nat) option" where
  "promptLoop answers k =
     (let charsPerTenMins = parseInt (answers k)
      in if promptAgain charsPerTenMins then promptLoop answers (Suc k)
         else Some (case charsPerTenMins of None \<Rightarrow> 0 | Some n \<Rightarrow> n, Suc k))"

subsection \<open>Operations\<close>

definition setupConfiguration ::
  "(int \<Rightarrow> int \<Rightarrow> 'f) \<Rightarrow> page \<Rightarrow> (nat \<Rightarrow> string option) \<Rightarrow> 'f typewriter \<Rightarrow> 'f typewriter outcome option" where
  "setupConfiguration fdiv pg answers s =
     (let s1 = s\<lparr>config := (config s)\<lparr>startBox := startDialog pg\<rparr>\<rparr>;
          s2 = s1\<lparr>config := (config s1)\<lparr>targetElement := text_todo_1_child pg\<rparr>\<rparr>
      in if targetElement (config s2) = None
         then Some (Thrown (Error ''Target element not found. Make sure the typing interface is loaded.'') s2)
         else (case promptLoop answers 0 of
                 None \<Rightarrow> None
               | Some (charsPerTenMins', n) \<Rightarrow>
                   let s3 = s2\<lparr>config := (config s2)\<lparr>charsPerTenMins := charsPerTenMins'\<rparr>\<rparr>;
                       s4 = s3\<lparr>config := (config s3)\<lparr>msToWait := fdiv 600000 (charsPerTenMins (config s3))\<rparr>\<rparr>
                   in Some (Returned s4)))"

definition setupObserver :: "'f typewriter \<Rightarrow> 'f typewriter" where
  "setupObserver s = s\<lparr>observer := Some Connected\<rparr>"

definition setupEventHandling :: "page \<Rightarrow> 'f typewriter \<Rightarrow> 'f typewriter" where
  "setupEventHandling pg s =
     (if startBox (config s) \<noteq> None \<and> startDialogDisplay pg \<noteq> ''none''
      then setupObserver s else s)"

text \<open>The callback given to the \<open>MutationObserver\<close>: it disconnects the observer.\<close>

definition observerCallback :: "'f typewriter \<Rightarrow> 'f typewriter" where
  "observerCallback s =
     (case observer s of None \<Rightarrow> s | Some ob \<Rightarrow> s\<lparr>observer := Some Disconnected\<rparr>)"

text \<open>\<open>setInterval\<close> and \<open>clearInterval\<close> on the browser's timer table.\<close>

definition setInterval :: "'f \<Rightarrow> 'f typewriter \<Rightarrow> nat \<times> 'f typewriter" where
  "setInterval delay s =
     (nextTimerId s, s\<lparr>timers := timers s @ [(nextTimerId s, delay)], nextTimerId := Suc (nextTimerId s)\<rparr>)"

definition clearInterval :: "nat \<Rightarrow> 'f typewriter \<Rightarrow> 'f typewriter" where
  "clearInterval i s = s\<lparr>timers := filter (\<lambda>t. fst t \<noteq> i) (timers s)\<rparr>"

definition startTyping :: "int \<Rightarrow> 'f typewriter \<Rightarrow> 'f typewriter" where
  "startTyping now s =
     (if isRunning s then s
      else let s1 = s\<lparr>isRunning := True\<rparr>;
               s2 = s1\<lparr>isPaused := False\<rparr>;
               s3 = s2\<lparr>stats := (stats s2)\<lparr>startTime := Some now\<rparr>\<rparr>;
               s4 = s3\<lparr>stats := (stats s3)\<lparr>charactersTyped := 0\<rparr>\<rparr>;
               (i, s5) = setInterval (msToWait (config s4)) s4
           in s5\<lparr>intervalId := Some i\<rparr>)"

definition charCodeAt :: "string \<Rightarrow> nat \<Rightarrow> nat option" where
  "charCodeAt str i = (if i < length str then Some (of_char (str ! i)) else None)"

text \<open>
  The body of the \<open>try\<close> block of \<open>typeNextCharacter\<close>. Reading \<open>innerHTML\<close> of a
  missing target element throws a \<open>TypeError\<close>; an empty string is falsy; a missing
  \<open>document.activeElement\<close> skips the dispatch and the counting.
\<close>

definition typeNextCharacter_try :: "page \<Rightarrow> int \<Rightarrow> 'f typewriter \<Rightarrow> 'f typewriter outcome" where
  "typeNextCharacter_try pg now s =
     (case targetElement (config s) of
        None \<Rightarrow> Thrown TypeError s
      | Some el \<Rightarrow>
          let keyToPress = innerHTML pg el
          in if keyToPress = [] then Returned s
             else let event = \<lparr> eventType = ''keypress'',
                                key = keyToPress,
                                keyCode = (if keyToPress = '' '' then 32
                                           else (case charCodeAt keyToPress 0 of None \<Rightarrow> 0 | Some c \<Rightarrow> c)),
                                altKey = False, ctrlKey = False, shiftKey = False, metaKey = False,
                                bubbles = True, cancelable = True \<rparr>
                  in (case activeElement pg of
                        None \<Rightarrow> Returned s
                      | Some a \<Rightarrow>
                          let s1 = s\<lparr>dispatched := dispatched s @ [(a, event)]\<rparr>;
                              s2 = s1\<lparr>stats := (stats s1)\<lparr>charactersTyped := charactersTyped (stats s1) + 1\<rparr>\<rparr>;
                              s3 = s2\<lparr>stats := (stats s2)\<lparr>lastTypedTime := Some now\<rparr>\<rparr>
                          in Returned s3))"

text \<open>The \<open>catch\<close> block is empty: whatever the body throws, the call returns.\<close>

definition typeNextCharacter :: "page \<Rightarrow> int \<Rightarrow> 'f typewriter \<Rightarrow> 'f typewriter outcome" where
  "typeNextCharacter pg now s =
     (case typeNextCharacter_try pg now s of
        Returned s' \<Rightarrow> Returned s'
      | Thrown e s' \<Rightarrow> Returned s')"

text \<open>The arrow function given to \<open>setInterval\<close> in \<open>startTyping\<close>.\<close>

definition intervalCallback :: "page \<Rightarrow> int \<Rightarrow> 'f typewriter \<Rightarrow> 'f typewriter outcome" where
  "intervalCallback pg now s =
     (if \<not> isPaused s then typeNextCharacter pg now s else Returned s)"

definition togglePause :: "'f typewriter \<Rightarrow> 'f typewriter outcome" where
  "togglePause s =
     (if \<not> isRunning s then Returned s
      else let s1 = s\<lparr>isPaused := \<not> isPaused s\<rparr>
           in (case ui s1 of
                 None \<Rightarrow> Thrown TypeError s1
               | Some u \<Rightarrow>
                   (case pauseBtn u of
                      None \<Rightarrow> Returned s1
                    | Some txt \<Rightarrow>
                        Returned (s1\<lparr>ui := Some (u\<lparr>pauseBtn := Some (if isPaused s1 then ''Resume'' else ''Pause'')\<rparr>)\<rparr>))))"

text \<open>
  \<open>stop\<close>: \<open>if (this.intervalId)\<close> is a truthiness test, so a handle 0 would not be
  cleared (the browser never hands out 0).
\<close>

definition stop :: "'f typewriter \<Rightarrow> 'f typewriter" where
  "stop s =
     (let s1 = (case intervalId s of
                  None \<Rightarrow> s
                | Some i \<Rightarrow> if i \<noteq> 0 then (clearInterval i s)\<lparr>intervalId := None\<rparr> else s);
          s2 = (case observer s1 of
                  None \<Rightarrow> s1
                | Some ob \<Rightarrow> s1\<lparr>observer := None\<rparr>);
          s3 = s2\<lparr>isRunning := False\<rparr>
      in s3\<lparr>isPaused := False\<rparr>)"

text \<open>
  \<open>getStatus\<close>: \<open>this.stats.startTime ? Date.now() - this.stats.startTime : 0\<close> is a
  truthiness test too, so a start time of 0 counts as no start time.
\<close>

definition getStatus :: "int \<Rightarrow> 'f typewriter \<Rightarrow> 'f status" where
  "getStatus now s =
     \<lparr> status_isRunning = isRunning s,
       status_charsPerTenMins = charsPerTenMins (config s),
       status_msToWait = msToWait (config s),
       status_targetElement = (targetElement (config s) \<noteq> None),
       status_charactersTyped = charactersTyped (stats s),
       status_timeRunning = (case startTime (stats s) of
                               None \<Rightarrow> 0
                             | Some t \<Rightarrow> if t \<noteq> 0 then now - t else 0) \<rparr>"

subsection \<open>The event loop\<close>

text \<open>
  The browser runs one callback at a time. The callback of \<open>startTyping\<close> runs only
  while its handle is in the table: after \<open>clearInterval\<close> it is not run again. A timer
  event for any other handle, such as the overlay's redraw, changes nothing here.
  An exception that reaches the event loop is reported and the state stays as the
  callback left it. \<open>OverlayChanged\<close> stands for the overlay code assigning \<open>this.ui\<close>.
  The operations can come in any order, as they can from the console. A step is \<open>None\<close>
  when the operation does not return (the prompt loop of \<open>setupConfiguration\<close>).
\<close>

definition timerFires :: "nat \<Rightarrow> page \<Rightarrow> int \<Rightarrow> 'f typewriter \<Rightarrow> 'f typewriter" where
  "timerFires i pg now s =
     (if i \<in> set (map fst (timers s)) then state_of (intervalCallback pg now s) else s)"

datatype event =
    Configure page "nat \<Rightarrow> string option"
  | EventHandling page
  | Mutation
  | Start int
  | TimerFires nat page int
  | TogglePause
  | Stop
  | OverlayChanged "overlay option"

fun step :: "(int \<Rightarrow> int \<Rightarrow> 'f) \<Rightarrow> event \<Rightarrow> 'f typewriter \<Rightarrow> 'f typewriter option" where
  "step fdiv (Configure pg answers) s = map_option state_of (setupConfiguration fdiv pg answers s)"
| "step fdiv (EventHandling pg) s = Some (setupEventHandling pg s)"
| "step fdiv Mutation s = Some (observerCallback s)"
| "step fdiv (Start now) s = Some (startTyping now s)"
| "step fdiv (TimerFires i pg now) s = Some (timerFires i pg now s)"
| "step fdiv TogglePause s = Some (state_of (togglePause s))"
| "step fdiv Stop s = Some (stop s)"
| "step fdiv (OverlayChanged u) s = Some (s\<lparr>ui := u\<rparr>)"

fun run :: "(int \<Rightarrow> int \<Rightarrow> 'f) \<Rightarrow> event list \<Rightarrow> 'f typewriter \<Rightarrow> 'f typewriter option" where
  "run fdiv [] s = Some s"
| "run fdiv (e # es) s = (case step fdiv e s of None \<Rightarrow> None | Some s' \<Rightarrow> run fdiv es s')"

subsection \<open>Invariant and sample inputs\<close>

text \<open>
  The timer discipline of the controller: the session runs exactly when it holds a
  timer handle, the only active typing interval is the one that handle names, handles
  are positive and below the next handle the browser will hand out.
\<close>

definition timer_inv :: "'f typewriter \<Rightarrow> bool" where
  "timer_inv s \<longleftrightarrow>
     (isRunning s \<longleftrightarrow> intervalId s \<noteq> None) \<and>
     map fst (timers s) = (case intervalId s of None \<Rightarrow> [] | Some i \<Rightarrow> [i]) \<and>
     (case intervalId s of None \<Rightarrow> True | Some i \<Rightarrow> 0 < i \<and> i < nextTimerId s) \<and>
     0 < nextTimerId s"

text \<open>
  The relation between the stored rate and the stored interval, for a division
  \<open>fdiv\<close>.
\<close>

definition interval_inv :: "(int \<Rightarrow> int \<Rightarrow> 'f) \<Rightarrow> 'f typewriter \<Rightarrow> bool" where
  "interval_inv fdiv s \<longleftrightarrow>
     (0 < charsPerTenMins (config s) \<longrightarrow>
        charsPerTenMins (config s) \<le> 10000 \<and>
        msToWait (config s) = fdiv 600000 (charsPerTenMins (config s)))"

fun isStart :: "event \<Rightarrow> bool" where
  "isStart (Start now) = True"
| "isStart e = False"

text \<open>
  A tick is successful on a page when the target element holds a non-empty string and
  some element has the focus.
\<close>

definition successful :: "element \<Rightarrow> page \<Rightarrow> bool" where
  "successful el pg \<longleftrightarrow> innerHTML pg el \<noteq> [] \<and> activeElement pg \<noteq> None"

text \<open>Firing the session's timer once for each page snapshot and clock reading.\<close>

fun ticks :: "nat \<Rightarrow> (page \<times> int) list \<Rightarrow> 'f typewriter \<Rightarrow> 'f typewriter" where
  "ticks i [] s = s"
| "ticks i (p # ps) s = ticks i ps (timerFires i (fst p) (snd p) s)"

text \<open>Calling \<open>togglePause\<close> \<open>n\<close> times.\<close>

fun togglePauses :: "nat \<Rightarrow> 'f typewriter \<Rightarrow> 'f typewriter" where
  "togglePauses 0 s = s"
| "togglePauses (Suc n) s = togglePauses n (state_of (togglePause s))"

text \<open>
  Sample inputs: a user who gives the listed answers and cancels every later prompt;
  exact division of rationals, which is what double division gives whenever the
  quotient is a double, as for 600000 / 600; a page whose target element (handle 7)
  shows \<open>txt\<close>, with a given focused element and no start dialog; a controller that
  was configured with the rate 600 on such a page.
\<close>

definition answersFrom :: "string option list \<Rightarrow> nat \<Rightarrow> string option" where
  "answersFrom xs k = (if k < length xs then xs ! k else None)"

definition exactDiv :: "int \<Rightarrow> int \<Rightarrow> rat" where
  "exactDiv a b = of_int a / of_int b"

definition samplePage :: "string \<Rightarrow> element option \<Rightarrow> page" where
  "samplePage txt focus =
     \<lparr> startDialog = None, startDialogDisplay = [], text_todo_1_child = Some 7,
       innerHTML = (\<lambda>el. if el = 7 then txt else []), activeElement = focus \<rparr>"

definition configured600 :: "rat typewriter" where
  "configured600 =
     constructor\<lparr>config := \<lparr> charsPerTenMins = 600, msToWait = 1000, targetElement = Some 7, startBox = None \<rparr>\<rparr>"

section \<open>Properties\<close>

subsection \<open>The prompt loop\<close>

lemma promptLoop_reject:
  "promptAgain (parseInt (answers k)) \<Longrightarrow> promptLoop answers k = promptLoop answers (Suc k)"
  by (subst promptLoop.simps) simp

lemma promptLoop_accept:
  "parseInt (answers k) = Some n \<Longrightarrow> 0 < n \<Longrightarrow> n \<le> 10000 \<Longrightarrow> promptLoop answers k = Some (n, Suc k)"
  by (subst promptLoop.simps) (simp add: promptAgain_def)

lemma promptLoop_first_valid:
  assumes "\<forall>j. k \<le> j \<and> j < m \<longrightarrow> promptAgain (parseInt (answers j))"
    and "k \<le> m" and "parseInt (answers m) = Some n" and "0 < n" and "n \<le> 10000"
  shows "promptLoop answers k = Some (n, Suc m)"
  using assms
proof (induction "m - k" arbitrary: k)
  case 0
  then have "k = m" by simp
  with 0 show ?case by (simp add: promptLoop_accept)
next
  case (Suc d)
  then have lt: "k < m" by simp
  with Suc.prems have "promptAgain (parseInt (answers k))" by simp
  then have "promptLoop answers k = promptLoop answers (Suc k)" by (rule promptLoop_reject)
  also have "\<dots> = Some (n, Suc m)"
  proof (rule Suc.hyps(1))
    show "d = m - Suc k" using Suc.hyps(2) by simp
    show "\<forall>j. Suc k \<le> j \<and> j < m \<longrightarrow> promptAgain (parseInt (answers j))" using Suc.prems(1) by simp
    show "Suc k \<le> m" using lt by simp
  qed (use Suc.prems in simp_all)
  finally show ?case .
qed

lemma promptLoop_Some_aux:
  assumes "promptLoop answers k = Some y"
  shows "\<exists>m. k \<le> m \<and> snd y = Suc m \<and> parseInt (answers m) = Some (fst y) \<and> 0 < fst y \<and> fst y \<le> 10000
        \<and> (\<forall>j. k \<le> j \<and> j < m \<longrightarrow> promptAgain (parseInt (answers j)))"
  using assms
proof (induction answers k y rule: promptLoop.raw_induct)
  case (1 f answers k y)
  show ?case
  proof (cases "promptAgain (parseInt (answers k))")
    case True
    with "1.hyps" have "f answers (Suc k) = Some y" by simp
    moreover have "promptLoop answers (Suc k) = Some y"
      using "1.prems" True promptLoop_reject [of answers k] by simp
    ultimately have "\<exists>m. Suc k \<le> m \<and> snd y = Suc m \<and> parseInt (answers m) = Some (fst y) \<and> 0 < fst y \<and> fst y \<le> 10000
        \<and> (\<forall>j. Suc k \<le> j \<and> j < m \<longrightarrow> promptAgain (parseInt (answers j)))"
      by (rule "1.IH")
    then obtain m where m1: "Suc k \<le> m" and m2: "snd y = Suc m" and m3: "parseInt (answers m) = Some (fst y)"
      and m4: "0 < fst y" and m5: "fst y \<le> 10000"
      and m6: "\<forall>j. Suc k \<le> j \<and> j < m \<longrightarrow> promptAgain (parseInt (answers j))"
      by blast
    have m7: "\<forall>j. k \<le> j \<and> j < m \<longrightarrow> promptAgain (parseInt (answers j))"
    proof (intro allI impI)
      fix j assume "k \<le> j \<and> j < m"
      then have "j = k \<or> (Suc k \<le> j \<and> j < m)" by arith
      then show "promptAgain (parseInt (answers j))" using True m6 by blast
    qed
    have "k \<le> m" using m1 by simp
    then show ?thesis using m2 m3 m4 m5 m7 by blast
  next
    case False
    then obtain v where v: "parseInt (answers k) = Some v" "0 < v" "v \<le> 10000"
      by (cases "parseInt (answers k)") (auto simp: promptAgain_def)
    with False "1.hyps" have "fst y = v" "snd y = Suc k" by auto
    with v show ?thesis by (intro exI[of _ k]) auto
  qed
qed (rule assms)

lemma promptLoop_Some:
  "promptLoop answers k = Some (n, c) \<Longrightarrow>
     \<exists>m. k \<le> m \<and> c = Suc m \<and> parseInt (answers m) = Some n \<and> 0 < n \<and> n \<le> 10000
        \<and> (\<forall>j. k \<le> j \<and> j < m \<longrightarrow> promptAgain (parseInt (answers j)))"
  using promptLoop_Some_aux [of answers k "(n, c)"] by simp

lemma promptLoop_None:
  assumes "\<forall>j. k \<le> j \<longrightarrow> promptAgain (parseInt (answers j))"
  shows "promptLoop answers k = None"
proof (cases "promptLoop answers k")
  case None then show ?thesis .
next
  case (Some r)
  obtain n c where "r = (n, c)" by (cases r)
  with Some promptLoop_Some[of answers k n c] assms show ?thesis
    by (auto simp: promptAgain_def)
qed

subsection \<open>What each operation does to the state\<close>

lemma setupConfiguration_missing:
  "text_todo_1_child pg = None \<Longrightarrow>
   setupConfiguration fdiv pg answers s =
     Some (Thrown (Error ''Target element not found. Make sure the typing interface is loaded.'')
            (s\<lparr>config := (config s)\<lparr>startBox := startDialog pg, targetElement := None\<rparr>\<rparr>))"
  by (simp add: setupConfiguration_def)

lemma setupConfiguration_returns:
  "text_todo_1_child pg = Some el \<Longrightarrow> promptLoop answers 0 = Some (r, c) \<Longrightarrow>
   setupConfiguration fdiv pg answers s =
     Some (Returned (s\<lparr>config := \<lparr> charsPerTenMins = r, msToWait = fdiv 600000 r,
                                      targetElement = Some el, startBox = startDialog pg \<rparr>\<rparr>))"
  by (simp add: setupConfiguration_def)

lemma setupConfiguration_diverges:
  "text_todo_1_child pg = Some el \<Longrightarrow> promptLoop answers 0 = None \<Longrightarrow>
   setupConfiguration fdiv pg answers s = None"
  by (simp add: setupConfiguration_def)

lemma setupConfiguration_cases:
  assumes "setupConfiguration fdiv pg answers s = Some out"
  shows "(text_todo_1_child pg = None \<and>
            out = Thrown (Error ''Target element not found. Make sure the typing interface is loaded.'')
                    (s\<lparr>config := (config s)\<lparr>startBox := startDialog pg, targetElement := None\<rparr>\<rparr>))
       \<or> (\<exists>el r c. text_todo_1_child pg = Some el \<and> promptLoop answers 0 = Some (r, c) \<and>
            out = Returned (s\<lparr>config := \<lparr> charsPerTenMins = r, msToWait = fdiv 600000 r,
                                            targetElement = Some el, startBox = startDialog pg \<rparr>\<rparr>))"
proof (cases "text_todo_1_child pg")
  case None
  with assms show ?thesis by (simp add: setupConfiguration_missing)
next
  case (Some el)
  show ?thesis
  proof (cases "promptLoop answers 0")
    case None
    with Some assms show ?thesis by (simp add: setupConfiguration_diverges)
  next
    case (Some y)
    obtain r c where "y = (r, c)" by (cases y)
    with Some \<open>text_todo_1_child pg = Some el\<close> assms show ?thesis
      by (simp add: setupConfiguration_returns)
  qed
qed

lemma startTyping_running: "isRunning s \<Longrightarrow> startTyping now s = s"
  by (simp add: startTyping_def)

lemma startTyping_idle:
  "\<not> isRunning s \<Longrightarrow>
   startTyping now s =
     s\<lparr>isRunning := True, isPaused := False,
       stats := (stats s)\<lparr>startTime := Some now, charactersTyped := 0\<rparr>,
       timers := timers s @ [(nextTimerId s, msToWait (config s))],
       nextTimerId := Suc (nextTimerId s),
       intervalId := Some (nextTimerId s)\<rparr>"
  by (simp add: startTyping_def setInterval_def)

lemma stop_fields:
  "isRunning (stop s) = False"
  "isPaused (stop s) = False"
  "observer (stop s) = None"
  "config (stop s) = config s"
  "ui (stop s) = ui s"
  "stats (stop s) = stats s"
  "nextTimerId (stop s) = nextTimerId s"
  "dispatched (stop s) = dispatched s"
  by (simp_all add: stop_def clearInterval_def Let_def split: option.splits)

lemma stop_timer:
  "intervalId (stop s) = (case intervalId s of None \<Rightarrow> None | Some i \<Rightarrow> if i \<noteq> 0 then None else Some i)"
  "timers (stop s) = (case intervalId s of None \<Rightarrow> timers s
                      | Some i \<Rightarrow> if i \<noteq> 0 then filter (\<lambda>t. fst t \<noteq> i) (timers s) else timers s)"
  by (simp_all add: stop_def clearInterval_def Let_def split: option.splits)

lemma typeNextCharacter_try_cases:
  "typeNextCharacter_try pg now s =
     (case targetElement (config s) of
        None \<Rightarrow> Thrown TypeError s
      | Some el \<Rightarrow>
          if innerHTML pg el = [] then Returned s
          else (case activeElement pg of
                  None \<Rightarrow> Returned s
                | Some a \<Rightarrow>
                    Returned (s\<lparr>dispatched := dispatched s @
                                  [(a, \<lparr> eventType = ''keypress'', key = innerHTML pg el,
                                         keyCode = (if innerHTML pg el = '' '' then 32
                                                    else of_char (hd (innerHTML pg el))),
                                         altKey = False, ctrlKey = False, shiftKey = False,
                                         metaKey = False, bubbles = True, cancelable = True \<rparr>)],
                                stats := (stats s)\<lparr>charactersTyped := charactersTyped (stats s) + 1,
                                                   lastTypedTime := Some now\<rparr>\<rparr>)))"
  by (simp add: typeNextCharacter_try_def charCodeAt_def Let_def hd_conv_nth split: option.splits)

lemma typeNextCharacter_returns: "returned (typeNextCharacter pg now s)"
  by (simp add: typeNextCharacter_def split: outcome.splits)

lemma typeNextCharacter_frame:
  "isRunning (state_of (typeNextCharacter pg now s)) = isRunning s"
  "isPaused (state_of (typeNextCharacter pg now s)) = isPaused s"
  "intervalId (state_of (typeNextCharacter pg now s)) = intervalId s"
  "observer (state_of (typeNextCharacter pg now s)) = observer s"
  "config (state_of (typeNextCharacter pg now s)) = config s"
  "ui (state_of (typeNextCharacter pg now s)) = ui s"
  "timers (state_of (typeNextCharacter pg now s)) = timers s"
  "nextTimerId (state_of (typeNextCharacter pg now s)) = nextTimerId s"
  by (simp_all add: typeNextCharacter_def typeNextCharacter_try_cases split: option.splits)

lemma timerFires_frame:
  "isRunning (timerFires i pg now s) = isRunning s"
  "isPaused (timerFires i pg now s) = isPaused s"
  "intervalId (timerFires i pg now s) = intervalId s"
  "observer (timerFires i pg now s) = observer s"
  "config (timerFires i pg now s) = config s"
  "ui (timerFires i pg now s) = ui s"
  "timers (timerFires i pg now s) = timers s"
  "nextTimerId (timerFires i pg now s) = nextTimerId s"
  by (simp_all add: timerFires_def intervalCallback_def typeNextCharacter_frame)

lemma timerFires_inactive: "i \<notin> set (map fst (timers s)) \<Longrightarrow> timerFires i pg now s = s"
  by (simp add: timerFires_def)

lemma togglePause_idle: "\<not> isRunning s \<Longrightarrow> togglePause s = Returned s"
  by (simp add: togglePause_def)

lemma togglePause_frame:
  "isRunning (state_of (togglePause s)) = isRunning s"
  "isPaused (state_of (togglePause s)) = (if isRunning s then \<not> isPaused s else isPaused s)"
  "intervalId (state_of (togglePause s)) = intervalId s"
  "observer (state_of (togglePause s)) = observer s"
  "config (state_of (togglePause s)) = config s"
  "stats (state_of (togglePause s)) = stats s"
  "timers (state_of (togglePause s)) = timers s"
  "nextTimerId (state_of (togglePause s)) = nextTimerId s"
  "dispatched (state_of (togglePause s)) = dispatched s"
  by (simp_all add: togglePause_def Let_def split: option.splits)

lemma setupEventHandling_frame:
  "isRunning (setupEventHandling pg s) = isRunning s"
  "isPaused (setupEventHandling pg s) = isPaused s"
  "intervalId (setupEventHandling pg s) = intervalId s"
  "config (setupEventHandling pg s) = config s"
  "stats (setupEventHandling pg s) = stats s"
  "timers (setupEventHandling pg s) = timers s"
  "nextTimerId (setupEventHandling pg s) = nextTimerId s"
  "dispatched (setupEventHandling pg s) = dispatched s"
  by (simp_all add: setupEventHandling_def setupObserver_def)

lemma observerCallback_frame:
  "isRunning (observerCallback s) = isRunning s"
  "isPaused (observerCallback s) = isPaused s"
  "intervalId (observerCallback s) = intervalId s"
  "config (observerCallback s) = config s"
  "stats (observerCallback s) = stats s"
  "timers (observerCallback s) = timers s"
  "nextTimerId (observerCallback s) = nextTimerId s"
  "dispatched (observerCallback s) = dispatched s"
  by (simp_all add: observerCallback_def split: option.splits)

subsection \<open>Invariants of the event loop\<close>

lemma constructor_interval_inv: "interval_inv fdiv constructor"
  by (simp add: interval_inv_def constructor_def)

lemma step_config:
  assumes "step fdiv e s = Some s'"
  shows "(\<exists>pg answers. e = Configure pg answers) \<or> config s' = config s"
  using assms
  by (cases e) (auto simp: stop_fields timerFires_frame togglePause_frame startTyping_def
      setInterval_def setupEventHandling_frame observerCallback_frame)

lemma step_interval_inv:
  assumes "interval_inv fdiv s" and "step fdiv e s = Some s'"
  shows "interval_inv fdiv s'"
proof (cases "\<exists>pg answers. e = Configure pg answers")
  case False
  with step_config [OF assms(2)] have "config s' = config s" by simp
  with assms(1) show ?thesis by (simp add: interval_inv_def)
next
  case True
  then obtain pg answers where e: "e = Configure pg answers" by blast
  with assms(2) obtain out where out: "setupConfiguration fdiv pg answers s = Some out"
    and s': "s' = state_of out" by auto
  from setupConfiguration_cases [OF out] show ?thesis
  proof
    assume "text_todo_1_child pg = None \<and>
            out = Thrown (Error ''Target element not found. Make sure the typing interface is loaded.'')
                    (s\<lparr>config := (config s)\<lparr>startBox := startDialog pg, targetElement := None\<rparr>\<rparr>)"
    with s' assms(1) show ?thesis by (simp add: interval_inv_def)
  next
    assume "\<exists>el r c. text_todo_1_child pg = Some el \<and> promptLoop answers 0 = Some (r, c) \<and>
            out = Returned (s\<lparr>config := \<lparr> charsPerTenMins = r, msToWait = fdiv 600000 r,
                                            targetElement = Some el, startBox = startDialog pg \<rparr>\<rparr>)"
    then obtain el r c where pl: "promptLoop answers 0 = Some (r, c)"
      and o: "out = Returned (s\<lparr>config := \<lparr> charsPerTenMins = r, msToWait = fdiv 600000 r,
                                            targetElement = Some el, startBox = startDialog pg \<rparr>\<rparr>)"
      by blast
    from promptLoop_Some [OF pl] have "r \<le> 10000" by blast
    with o s' show ?thesis by (simp add: interval_inv_def)
  qed
qed

lemma run_interval_inv:
  "interval_inv fdiv s \<Longrightarrow> run fdiv es s = Some s' \<Longrightarrow> interval_inv fdiv s'"
proof (induction es arbitrary: s)
  case Nil
  then show ?case by simp
next
  case (Cons e es)
  then obtain s1 where s1: "step fdiv e s = Some s1" and r: "run fdiv es s1 = Some s'"
    by (auto split: option.splits)
  from step_interval_inv [OF Cons.prems(1) s1] have "interval_inv fdiv s1" .
  then show ?case using r by (rule Cons.IH)
qed

lemma sample_promptLoop:
  "promptLoop (answersFrom [Some ''abc'', Some ''600'']) 0 = Some (600, 2)"
proof -
  have "promptLoop (answersFrom [Some ''abc'', Some ''600'']) 0 = Some (600, Suc 1)"
  proof (rule promptLoop_first_valid)
    show "\<forall>j. 0 \<le> j \<and> j < 1 \<longrightarrow> promptAgain (parseInt (answersFrom [Some ''abc'', Some ''600''] j))"
      by (simp add: answersFrom_def promptAgain_def parseInt_def isStrWhiteSpaceChar_def
          digitValue_def digitsValue_def)
    show "parseInt (answersFrom [Some ''abc'', Some ''600''] 1) = Some 600"
      by (simp add: answersFrom_def parseInt_def isStrWhiteSpaceChar_def digitValue_def digitsValue_def)
  qed simp_all
  then show ?thesis by simp
qed

lemma sample_configure:
  "setupConfiguration exactDiv (samplePage txt focus) (answersFrom [Some ''abc'', Some ''600'']) constructor
     = Some (Returned configured600)"
proof -
  have "text_todo_1_child (samplePage txt focus) = Some 7" by (simp add: samplePage_def)
  from setupConfiguration_returns [OF this sample_promptLoop, of exactDiv constructor]
  show ?thesis by (simp add: configured600_def exactDiv_def samplePage_def constructor_def)
qed

text \<open>
  C1. For every configured rate \<open>r\<close> in [1,10000] the derived tick interval is the
  quotient 600000 / r as the number type's division computes it; and in every state
  the controller can reach, a positive rate comes with exactly that interval.
\<close>

theorem tick_interval_is_quotient:
  fixes fdiv :: "int \<Rightarrow> int \<Rightarrow> 'f::zero"
  shows "(setupConfiguration fdiv pg answers s0 = Some (Returned s1) \<longrightarrow>
            1 \<le> charsPerTenMins (config s1) \<and> charsPerTenMins (config s1) \<le> 10000 \<and>
            msToWait (config s1) = fdiv 600000 (charsPerTenMins (config s1)))
       \<and> (run fdiv es constructor = Some s \<and> 0 < charsPerTenMins (config s) \<longrightarrow>
            msToWait (config s) = fdiv 600000 (charsPerTenMins (config s)))"
proof (intro conjI impI)
  assume a: "setupConfiguration fdiv pg answers s0 = Some (Returned s1)"
  from setupConfiguration_cases [OF a] obtain el r c
    where pl: "promptLoop answers 0 = Some (r, c)"
      and s1: "s1 = s0\<lparr>config := \<lparr> charsPerTenMins = r, msToWait = fdiv 600000 r,
                                    targetElement = Some el, startBox = startDialog pg \<rparr>\<rparr>"
    by auto
  from promptLoop_Some [OF pl] have "0 < r" "r \<le> 10000" by blast+
  with s1 show "1 \<le> charsPerTenMins (config s1)" "charsPerTenMins (config s1) \<le> 10000"
    "msToWait (config s1) = fdiv 600000 (charsPerTenMins (config s1))" by simp_all
next
  assume a: "run fdiv es constructor = Some s \<and> 0 < charsPerTenMins (config s)"
  then have "interval_inv fdiv s"
    using run_interval_inv [OF constructor_interval_inv] by blast
  with a show "msToWait (config s) = fdiv 600000 (charsPerTenMins (config s))"
    by (simp add: interval_inv_def)
qed

theorem tick_interval_is_quotient_witness:
  "setupConfiguration exactDiv (samplePage ''a'' None) (answersFrom [Some ''abc'', Some ''600'']) constructor
     = Some (Returned configured600)
   \<and> run exactDiv [Configure (samplePage ''a'' None) (answersFrom [Some ''abc'', Some ''600'']), Start 5]
        constructor = Some (startTyping 5 configured600)
   \<and> 0 < charsPerTenMins (config (startTyping 5 configured600))
   \<and> charsPerTenMins (config configured600) = 600
   \<and> msToWait (config configured600) = exactDiv 600000 (charsPerTenMins (config configured600))
   \<and> msToWait (config (startTyping 5 configured600))
       = exactDiv 600000 (charsPerTenMins (config (startTyping 5 configured600)))"
proof -
  have h1: "setupConfiguration exactDiv (samplePage ''a'' None) (answersFrom [Some ''abc'', Some ''600''])
              constructor = Some (Returned configured600)"
    by (rule sample_configure)
  have h2: "run exactDiv [Configure (samplePage ''a'' None) (answersFrom [Some ''abc'', Some ''600'']), Start 5]
              constructor = Some (startTyping 5 configured600)"
    by (simp add: h1)
  have h3: "0 < charsPerTenMins (config (startTyping 5 configured600))"
    by (simp add: startTyping_idle configured600_def constructor_def)
  have h4: "charsPerTenMins (config configured600) = 600"
    by (simp add: configured600_def)
  note t = tick_interval_is_quotient [of exactDiv "samplePage ''a'' None"
      "answersFrom [Some ''abc'', Some ''600'']" constructor configured600
      "[Configure (samplePage ''a'' None) (answersFrom [Some ''abc'', Some ''600'']), Start 5]"
      "startTyping 5 configured600"]
  from t h1 have c1: "msToWait (config configured600) = exactDiv 600000 (charsPerTenMins (config configured600))"
    by blast
  from t h2 h3 have c2: "msToWait (config (startTyping 5 configured600))
       = exactDiv 600000 (charsPerTenMins (config (startTyping 5 configured600)))"
    by blast
  from h1 h2 h3 h4 c1 c2 show ?thesis by blast
qed

subsection \<open>Answers without a digit\<close>

lemma digitValue_10_digit:
  assumes "digitValue 10 c \<noteq> None"
  shows "c \<in> set ''0123456789''"
proof -
  let ?n = "of_char c :: nat"
  from assms have "48 \<le> ?n \<and> ?n \<le> 57"
    by (auto simp: digitValue_def Let_def split: if_splits)
  then have "?n = 48 \<or> ?n = 49 \<or> ?n = 50 \<or> ?n = 51 \<or> ?n = 52 \<or> ?n = 53 \<or> ?n = 54
      \<or> ?n = 55 \<or> ?n = 56 \<or> ?n = 57" by arith
  then have "?n = of_char CHR ''0'' \<or> ?n = of_char CHR ''1'' \<or> ?n = of_char CHR ''2''
      \<or> ?n = of_char CHR ''3'' \<or> ?n = of_char CHR ''4'' \<or> ?n = of_char CHR ''5''
      \<or> ?n = of_char CHR ''6'' \<or> ?n = of_char CHR ''7'' \<or> ?n = of_char CHR ''8''
      \<or> ?n = of_char CHR ''9''" by simp
  then have "c = CHR ''0'' \<or> c = CHR ''1'' \<or> c = CHR ''2'' \<or> c = CHR ''3'' \<or> c = CHR ''4''
      \<or> c = CHR ''5'' \<or> c = CHR ''6'' \<or> c = CHR ''7'' \<or> c = CHR ''8'' \<or> c = CHR ''9''"
    unfolding of_char_eq_iff .
  then show ?thesis by auto
qed

lemma takeWhile_no_digit:
  assumes "set xs \<inter> set ''0123456789'' = {}"
  shows "takeWhile (\<lambda>c. digitValue 10 c \<noteq> None) xs = []"
proof (cases xs)
  case Nil
  then show ?thesis by simp
next
  case (Cons x ys)
  with assms have "x \<notin> set ''0123456789''" by auto
  with digitValue_10_digit [of x] have "digitValue 10 x = None" by blast
  with Cons show ?thesis by simp
qed

lemma parseInt_no_digit:
  assumes "set str \<inter> set ''0123456789'' = {}"
  shows "parseInt (Some str) = None"
proof -
  define S where "S = dropWhile isStrWhiteSpaceChar str"
  define S1 where "S1 = (if take 1 S = ''+'' \<or> take 1 S = ''-'' then drop 1 S else S)"
  have "set S \<subseteq> set str" unfolding S_def by (auto dest: set_dropWhileD)
  moreover have "set S1 \<subseteq> set S" unfolding S1_def by (auto dest: in_set_dropD)
  ultimately have sub: "set S1 \<subseteq> set str" by blast
  with assms have nod: "set S1 \<inter> set ''0123456789'' = {}" by blast
  have nohex: "\<not> (take 2 S1 = ''0x'' \<or> take 2 S1 = ''0X'')"
  proof
    assume "take 2 S1 = ''0x'' \<or> take 2 S1 = ''0X''"
    then have "CHR ''0'' \<in> set (take 2 S1)" by auto
    then have "CHR ''0'' \<in> set S1" by (rule in_set_takeD)
    with nod show False by auto
  qed
  have "takeWhile (\<lambda>c. digitValue 10 c \<noteq> None) S1 = []"
    using nod by (rule takeWhile_no_digit)
  with nohex show ?thesis
    unfolding parseInt_def Let_def option.case S_def [symmetric] S1_def [symmetric] by simp
qed

lemma parseInt_null: "parseInt None = None"
  by (simp add: parseInt_def isStrWhiteSpaceChar_def digitValue_def digitsValue_def)

text \<open>
  C2 (as amended). On a page with a target element, configuration asks again after
  every answer in which \<open>parseInt\<close> finds no integer (a cancelled prompt, an answer
  with no digit), an integer that is at most 0, or one above 10000. It returns at the
  first answer whose leading integer \<open>r\<close> is in [1,10000], whatever follows the digits,
  stores \<open>r\<close> and the interval derived from it; if no such answer ever comes, it does
  not return.
\<close>

theorem configuration_takes_first_accepted_answer:
  fixes fdiv :: "int \<Rightarrow> int \<Rightarrow> 'f"
  assumes "text_todo_1_child pg = Some el"
  shows "((\<forall>j<m. promptAgain (parseInt (answers j))) \<and> parseInt (answers m) = Some r \<and> 1 \<le> r \<and> r \<le> 10000 \<longrightarrow>
            setupConfiguration fdiv pg answers s =
              Some (Returned (s\<lparr>config := \<lparr> charsPerTenMins = r, msToWait = fdiv 600000 r,
                                              targetElement = Some el, startBox = startDialog pg \<rparr>\<rparr>)))
       \<and> ((\<forall>j. promptAgain (parseInt (answers j))) \<longrightarrow> setupConfiguration fdiv pg answers s = None)
       \<and> (parseInt a = Some n \<and> (n \<le> 0 \<or> 10000 < n) \<longrightarrow> promptAgain (parseInt a))
       \<and> promptAgain (parseInt None)
       \<and> (set str \<inter> set ''0123456789'' = {} \<longrightarrow> promptAgain (parseInt (Some str)))"
proof (intro conjI impI)
  assume a: "(\<forall>j<m. promptAgain (parseInt (answers j))) \<and> parseInt (answers m) = Some r \<and> 1 \<le> r \<and> r \<le> 10000"
  have "promptLoop answers 0 = Some (r, Suc m)"
    by (rule promptLoop_first_valid) (use a in auto)
  with assms show "setupConfiguration fdiv pg answers s =
              Some (Returned (s\<lparr>config := \<lparr> charsPerTenMins = r, msToWait = fdiv 600000 r,
                                              targetElement = Some el, startBox = startDialog pg \<rparr>\<rparr>))"
    by (rule setupConfiguration_returns)
next
  assume "\<forall>j. promptAgain (parseInt (answers j))"
  then have "promptLoop answers 0 = None" by (intro promptLoop_None) simp
  with assms show "setupConfiguration fdiv pg answers s = None"
    by (rule setupConfiguration_diverges)
next
  assume "parseInt a = Some n \<and> (n \<le> 0 \<or> 10000 < n)"
  then show "promptAgain (parseInt a)" by (auto simp: promptAgain_def)
next
  show "promptAgain (parseInt None)" by (simp add: parseInt_null promptAgain_def)
next
  assume "set str \<inter> set ''0123456789'' = {}"
  then show "promptAgain (parseInt (Some str))" by (simp add: parseInt_no_digit promptAgain_def)
qed

lemma sample_parses:
  "parseInt (Some ''abc'') = None"
  "parseInt (Some ''-5'') = Some (- 5)"
  "parseInt (Some ''20000'') = Some 20000"
  "parseInt (Some ''10000'') = Some 10000"
  "parseInt (Some ''12px'') = Some 12"
  by (simp_all add: parseInt_def isStrWhiteSpaceChar_def digitValue_def digitsValue_def)

theorem configuration_takes_first_accepted_answer_witness:
  "text_todo_1_child (samplePage ''a'' None) = Some 7
   \<and> promptAgain (parseInt (answersFrom [Some ''abc'', Some ''-5'', Some ''20000'', None, Some ''10000''] 0))
   \<and> promptAgain (parseInt (answersFrom [Some ''abc'', Some ''-5'', Some ''20000'', None, Some ''10000''] 1))
   \<and> promptAgain (parseInt (answersFrom [Some ''abc'', Some ''-5'', Some ''20000'', None, Some ''10000''] 2))
   \<and> promptAgain (parseInt (answersFrom [Some ''abc'', Some ''-5'', Some ''20000'', None, Some ''10000''] 3))
   \<and> parseInt (answersFrom [Some ''abc'', Some ''-5'', Some ''20000'', None, Some ''10000''] 4) = Some 10000
   \<and> setupConfiguration exactDiv (samplePage ''a'' None)
        (answersFrom [Some ''abc'', Some ''-5'', Some ''20000'', None, Some ''10000'']) constructor
      = Some (Returned (constructor\<lparr>config := \<lparr> charsPerTenMins = 10000, msToWait = exactDiv 600000 10000,
                                                 targetElement = Some 7,
                                                 startBox = startDialog (samplePage ''a'' None) \<rparr>\<rparr>))
   \<and> setupConfiguration exactDiv (samplePage ''a'' None) (answersFrom [Some ''abc'']) constructor = None
   \<and> parseInt (Some ''20000'') = Some 20000
   \<and> promptAgain (parseInt (Some ''20000''))
   \<and> set ''abc'' \<inter> set ''0123456789'' = {}
   \<and> promptAgain (parseInt (Some ''abc''))"
proof -
  let ?as = "answersFrom [Some ''abc'', Some ''-5'', Some ''20000'', None, Some ''10000'']"
  let ?pg = "samplePage ''a'' None"
  have pg: "text_todo_1_child ?pg = Some 7" by (simp add: samplePage_def)
  have r0: "promptAgain (parseInt (?as 0))"
    by (simp add: answersFrom_def sample_parses promptAgain_def)
  have r1: "promptAgain (parseInt (?as 1))"
    by (simp add: answersFrom_def sample_parses promptAgain_def)
  have r2: "promptAgain (parseInt (?as 2))"
    by (simp add: answersFrom_def sample_parses promptAgain_def)
  have r3: "promptAgain (parseInt (?as 3))"
    by (simp add: answersFrom_def parseInt_null promptAgain_def)
  have r4: "parseInt (?as 4) = Some 10000"
    by (simp add: answersFrom_def sample_parses)
  have all: "\<forall>j<4. promptAgain (parseInt (?as j))"
  proof (intro allI impI)
    fix j :: nat assume "j < 4"
    then have "j = 0 \<or> j = 1 \<or> j = 2 \<or> j = 3" by arith
    with r0 r1 r2 r3 show "promptAgain (parseInt (?as j))" by blast
  qed
  have never: "\<forall>j. promptAgain (parseInt (answersFrom [Some ''abc''] j))"
    by (simp add: answersFrom_def sample_parses parseInt_null promptAgain_def)
  have big: "parseInt (Some ''20000'') = Some 20000" by (rule sample_parses)
  have nodigit: "set ''abc'' \<inter> set ''0123456789'' = {}" by simp
  note t1 = configuration_takes_first_accepted_answer [OF pg, of 4 ?as 10000 exactDiv constructor
      "Some ''20000''" 20000 "''abc''"]
  note t2 = configuration_takes_first_accepted_answer [OF pg, of 4 "answersFrom [Some ''abc'']" 10000
      exactDiv constructor "Some ''20000''" 20000 "''abc''"]
  have c1: "setupConfiguration exactDiv ?pg ?as constructor
      = Some (Returned (constructor\<lparr>config := \<lparr> charsPerTenMins = 10000, msToWait = exactDiv 600000 10000,
                                                 targetElement = Some 7, startBox = startDialog ?pg \<rparr>\<rparr>))"
    using t1 all r4 by simp
  have c2: "setupConfiguration exactDiv ?pg (answersFrom [Some ''abc'']) constructor = None"
    using t2 never by blast
  have c3: "promptAgain (parseInt (Some ''20000''))" using t1 big by simp
  have c4: "promptAgain (parseInt (Some ''abc''))" using t1 nodigit by blast
  from pg r0 r1 r2 r3 r4 c1 c2 big c3 nodigit c4 show ?thesis by blast
qed

text \<open>
  The claim as it is written fails: the answer \<open>12px\<close> is not a number, and
  configuration accepts it, with the rate 12.
\<close>

theorem configuration_accepts_12px:
  "setupConfiguration exactDiv (samplePage ''a'' None) (answersFrom [Some ''12px'']) constructor
     = Some (Returned (constructor\<lparr>config := \<lparr> charsPerTenMins = 12, msToWait = 50000,
                                                targetElement = Some 7, startBox = None \<rparr>\<rparr>))"
proof -
  have pg: "text_todo_1_child (samplePage ''a'' None) = Some 7" by (simp add: samplePage_def)
  have "promptLoop (answersFrom [Some ''12px'']) 0 = Some (12, Suc 0)"
    by (rule promptLoop_accept) (simp_all add: answersFrom_def sample_parses)
  from setupConfiguration_returns [OF pg this, of exactDiv constructor]
  show ?thesis by (simp add: exactDiv_def samplePage_def)
qed

subsection \<open>The timer discipline\<close>

lemma constructor_timer_inv: "timer_inv constructor"
  by (simp add: timer_inv_def constructor_def)

lemma startTyping_timer_inv: "timer_inv s \<Longrightarrow> timer_inv (startTyping now s)"
proof (cases "isRunning s")
  case True
  assume "timer_inv s"
  with True show ?thesis by (simp add: startTyping_running)
next
  case False
  assume "timer_inv s"
  with False show ?thesis by (simp add: startTyping_idle timer_inv_def)
qed

lemma stop_idle:
  assumes "timer_inv s"
  shows "timers (stop s) = []" and "intervalId (stop s) = None" and "\<not> isRunning (stop s)"
proof -
  show "\<not> isRunning (stop s)" by (simp add: stop_fields)
  show "intervalId (stop s) = None"
    using assms by (auto simp: stop_timer timer_inv_def split: option.splits)
  show "timers (stop s) = []"
  proof (cases "intervalId s")
    case None
    with assms show ?thesis by (simp add: stop_timer timer_inv_def)
  next
    case (Some i)
    with assms have i: "0 < i" and m: "map fst (timers s) = [i]" by (simp_all add: timer_inv_def)
    from m obtain d where "timers s = [(i, d)]" by (cases "timers s") auto
    with Some i show ?thesis by (simp add: stop_timer)
  qed
qed

lemma stop_timer_inv: "timer_inv s \<Longrightarrow> timer_inv (stop s)"
  using stop_idle [of s] by (simp add: timer_inv_def stop_fields)

lemma step_timer_inv:
  assumes "timer_inv s" and "step fdiv e s = Some s'"
  shows "timer_inv s'"
proof (cases e)
  case (Configure pg answers)
  with assms(2) obtain out where out: "setupConfiguration fdiv pg answers s = Some out"
    and s': "s' = state_of out" by auto
  from setupConfiguration_cases [OF out] s' assms(1) show ?thesis
    by (auto simp: timer_inv_def)
next
  case (EventHandling pg)
  with assms show ?thesis by (auto simp: timer_inv_def setupEventHandling_frame)
next
  case Mutation
  with assms show ?thesis by (auto simp: timer_inv_def observerCallback_frame)
next
  case (Start now)
  with assms show ?thesis by (auto simp: startTyping_timer_inv)
next
  case (TimerFires i pg now)
  with assms show ?thesis by (auto simp: timer_inv_def timerFires_frame)
next
  case TogglePause
  with assms show ?thesis by (auto simp: timer_inv_def togglePause_frame)
next
  case Stop
  with assms show ?thesis by (auto simp: stop_timer_inv)
next
  case (OverlayChanged u)
  with assms show ?thesis by (auto simp: timer_inv_def)
qed

lemma run_timer_inv:
  "timer_inv s \<Longrightarrow> run fdiv es s = Some s' \<Longrightarrow> timer_inv s'"
proof (induction es arbitrary: s)
  case Nil
  then show ?case by simp
next
  case (Cons e es)
  then obtain s1 where s1: "step fdiv e s = Some s1" and r: "run fdiv es s1 = Some s'"
    by (auto split: option.splits)
  from step_timer_inv [OF Cons.prems(1) s1] have "timer_inv s1" .
  then show ?case using r by (rule Cons.IH)
qed

text \<open>A session with no typing interval and not running stays so until the next start.\<close>

lemma step_stopped:
  assumes "timers s = []" and "\<not> isRunning s" and "\<not> isStart e" and "step fdiv e s = Some s'"
  shows "timers s' = [] \<and> \<not> isRunning s' \<and> stats s' = stats s \<and> dispatched s' = dispatched s"
proof (cases e)
  case (Configure pg answers)
  with assms(4) obtain out where out: "setupConfiguration fdiv pg answers s = Some out"
    and s': "s' = state_of out" by auto
  from setupConfiguration_cases [OF out] s' assms(1,2) show ?thesis by auto
next
  case (EventHandling pg)
  with assms show ?thesis by (auto simp: setupEventHandling_frame)
next
  case Mutation
  with assms show ?thesis by (auto simp: observerCallback_frame)
next
  case (Start now)
  with assms(3) show ?thesis by simp
next
  case (TimerFires i pg now)
  with assms show ?thesis by (auto simp: timerFires_inactive)
next
  case TogglePause
  with assms show ?thesis by (auto simp: togglePause_idle)
next
  case Stop
  with assms show ?thesis by (auto simp: stop_fields stop_timer split: option.splits)
next
  case (OverlayChanged u)
  with assms show ?thesis by auto
qed

lemma run_stopped:
  "timers s = [] \<Longrightarrow> \<not> isRunning s \<Longrightarrow> \<forall>e\<in>set es. \<not> isStart e \<Longrightarrow> run fdiv es s = Some s' \<Longrightarrow>
   timers s' = [] \<and> \<not> isRunning s' \<and> stats s' = stats s \<and> dispatched s' = dispatched s"
proof (induction es arbitrary: s)
  case Nil
  then show ?case by simp
next
  case (Cons e es)
  then obtain s1 where s1: "step fdiv e s = Some s1" and r: "run fdiv es s1 = Some s'"
    by (auto split: option.splits)
  from Cons.prems have "\<not> isStart e" by simp
  from step_stopped [OF Cons.prems(1,2) this s1]
  have a: "timers s1 = []" "\<not> isRunning s1" and b: "stats s1 = stats s" "dispatched s1 = dispatched s"
    by simp_all
  from Cons.prems have "\<forall>e\<in>set es. \<not> isStart e" by simp
  from Cons.IH [OF a this r] b show ?case by simp
qed

lemma sample_started:
  "startTyping t0 configured600 =
     configured600\<lparr>isRunning := True, isPaused := False,
       stats := \<lparr> charactersTyped = 0, startTime = Some t0, lastTypedTime = None \<rparr>,
       timers := [(1, 1000)], nextTimerId := 2, intervalId := Some 1\<rparr>"
  by (simp add: startTyping_idle configured600_def constructor_def)

text \<open>
  C3. After \<open>stop\<close>, no tick increments \<open>charactersTyped\<close>. \<open>stop\<close> clears the
  session's interval, and the browser does not run the callback of a cleared interval:
  in every state reached from the stopped session before it is started again, a timer
  event, for the handle the session had or for any other, leaves the whole state as it
  is, so \<open>charactersTyped\<close> stays what it was at the stop and nothing is dispatched.
\<close>

theorem no_tick_after_stop:
  fixes fdiv :: "int \<Rightarrow> int \<Rightarrow> 'f::zero"
  assumes "run fdiv es0 constructor = Some s"
    and "\<forall>e\<in>set es. \<not> isStart e"
    and "run fdiv es (stop s) = Some s'"
  shows "timerFires i pg now s' = s'
       \<and> step fdiv (TimerFires i pg now) s' = Some s'
       \<and> charactersTyped (stats (timerFires i pg now s')) = charactersTyped (stats s)
       \<and> dispatched (timerFires i pg now s') = dispatched s
       \<and> charactersTyped (stats s') = charactersTyped (stats s)
       \<and> \<not> isRunning s'"
proof -
  have "timer_inv s" using constructor_timer_inv assms(1) by (rule run_timer_inv)
  then have idle: "timers (stop s) = []" "\<not> isRunning (stop s)" by (rule stop_idle)+
  from run_stopped [OF idle assms(2,3)]
  have none: "timers s' = []" and still: "\<not> isRunning s'"
    and kept: "stats s' = stats (stop s)" "dispatched s' = dispatched (stop s)"
    by simp_all
  from none have fire: "timerFires i pg now s' = s'" by (simp add: timerFires_inactive)
  from kept have "charactersTyped (stats s') = charactersTyped (stats s)"
    and "dispatched s' = dispatched s" by (simp_all add: stop_fields)
  with fire still show ?thesis by simp
qed

theorem no_tick_after_stop_witness:
  "run exactDiv [Configure (samplePage ''a'' (Some 3)) (answersFrom [Some ''abc'', Some ''600'']),
                 Start 0, TimerFires 1 (samplePage ''a'' (Some 3)) 1000] constructor
     = Some (timerFires 1 (samplePage ''a'' (Some 3)) 1000 (startTyping 0 configured600))
   \<and> isRunning (timerFires 1 (samplePage ''a'' (Some 3)) 1000 (startTyping 0 configured600)) = True
   \<and> charactersTyped (stats (timerFires 1 (samplePage ''a'' (Some 3)) 1000 (startTyping 0 configured600))) = 1
   \<and> run exactDiv [TimerFires 1 (samplePage ''b'' (Some 3)) 2000, TogglePause,
                    TimerFires 1 (samplePage ''c'' (Some 3)) 3000]
        (stop (timerFires 1 (samplePage ''a'' (Some 3)) 1000 (startTyping 0 configured600)))
     = Some (stop (timerFires 1 (samplePage ''a'' (Some 3)) 1000 (startTyping 0 configured600)))
   \<and> successful 7 (samplePage ''d'' (Some 3))
   \<and> timerFires 1 (samplePage ''d'' (Some 3)) 4000
        (stop (timerFires 1 (samplePage ''a'' (Some 3)) 1000 (startTyping 0 configured600)))
     = stop (timerFires 1 (samplePage ''a'' (Some 3)) 1000 (startTyping 0 configured600))
   \<and> charactersTyped (stats (timerFires 1 (samplePage ''d'' (Some 3)) 4000
        (stop (timerFires 1 (samplePage ''a'' (Some 3)) 1000 (startTyping 0 configured600))))) = 1"
proof -
  let ?pg = "samplePage ''a'' (Some 3)"
  let ?s = "timerFires 1 ?pg 1000 (startTyping 0 configured600)"
  let ?before = "[Configure ?pg (answersFrom [Some ''abc'', Some ''600'']), Start 0, TimerFires 1 ?pg 1000]"
  let ?after = "[TimerFires 1 (samplePage ''b'' (Some 3)) 2000, TogglePause,
              TimerFires 1 (samplePage ''c'' (Some 3)) 3000]"
  have h1: "run exactDiv ?before constructor = Some ?s"
    by (simp add: sample_configure)
  have h2: "\<forall>e\<in>set ?after. \<not> isStart e" by simp
  have r: "isRunning ?s" by (simp add: timerFires_frame sample_started)
  have n: "charactersTyped (stats ?s) = 1"
    unfolding sample_started
    by (simp add: timerFires_def intervalCallback_def typeNextCharacter_def
        typeNextCharacter_try_cases configured600_def constructor_def samplePage_def)
  have ok: "successful 7 (samplePage ''d'' (Some 3))" by (simp add: successful_def samplePage_def)
  have "timer_inv ?s" using constructor_timer_inv h1 by (rule run_timer_inv)
  then have idle: "timers (stop ?s) = []" "\<not> isRunning (stop ?s)" by (rule stop_idle)+
  have h3: "run exactDiv ?after (stop ?s) = Some (stop ?s)"
    using idle by (simp add: timerFires_inactive togglePause_idle)
  note t = no_tick_after_stop [OF h1 h2 h3, of 1 "samplePage ''d'' (Some 3)" 4000]
  from t have c1: "timerFires 1 (samplePage ''d'' (Some 3)) 4000 (stop ?s) = stop ?s" by blast
  from t n have c2: "charactersTyped (stats (timerFires 1 (samplePage ''d'' (Some 3)) 4000 (stop ?s))) = 1"
    by simp
  from h1 r n h3 ok c1 c2 show ?thesis by blast
qed

text \<open>
  C4. \<open>startTyping\<close> changes nothing when the session is running, so a second call
  right after a first one has no effect. On a session that is not running it sets
  \<open>isRunning\<close>, clears \<open>isPaused\<close>, sets \<open>charactersTyped\<close> to 0 and \<open>startTime\<close> to
  the clock reading, and registers one interval timer whose delay is the stored
  \<open>msToWait\<close>; \<open>lastTypedTime\<close>, the configuration and the overlay are left as they are.
\<close>

theorem startTyping_idempotent:
  "startTyping t2 (startTyping t1 s) = startTyping t1 s
   \<and> (isRunning s \<longrightarrow> startTyping t1 s = s)
   \<and> (\<not> isRunning s \<longrightarrow>
        startTyping t1 s =
          s\<lparr>isRunning := True, isPaused := False,
            stats := (stats s)\<lparr>startTime := Some t1, charactersTyped := 0\<rparr>,
            timers := timers s @ [(nextTimerId s, msToWait (config s))],
            nextTimerId := Suc (nextTimerId s),
            intervalId := Some (nextTimerId s)\<rparr>)"
proof (intro conjI impI)
  show "startTyping t2 (startTyping t1 s) = startTyping t1 s"
  proof (cases "isRunning s")
    case True
    then show ?thesis by (simp add: startTyping_running)
  next
    case False
    then have "isRunning (startTyping t1 s)" by (simp add: startTyping_idle)
    then show ?thesis by (rule startTyping_running)
  qed
next
  assume "isRunning s"
  then show "startTyping t1 s = s" by (rule startTyping_running)
next
  assume "\<not> isRunning s"
  then show "startTyping t1 s =
          s\<lparr>isRunning := True, isPaused := False,
            stats := (stats s)\<lparr>startTime := Some t1, charactersTyped := 0\<rparr>,
            timers := timers s @ [(nextTimerId s, msToWait (config s))],
            nextTimerId := Suc (nextTimerId s),
            intervalId := Some (nextTimerId s)\<rparr>"
    by (rule startTyping_idle)
qed

theorem startTyping_idempotent_witness:
  "isRunning configured600 = False
   \<and> isRunning (startTyping 5 configured600) = True
   \<and> startTyping 99 (startTyping 5 configured600) = startTyping 5 configured600
   \<and> startTyping 5 configured600 =
        configured600\<lparr>isRunning := True, isPaused := False,
          stats := \<lparr> charactersTyped = 0, startTime = Some 5, lastTypedTime = None \<rparr>,
          timers := [(1, 1000)], nextTimerId := 2, intervalId := Some 1\<rparr>"
proof -
  have h1: "\<not> isRunning configured600" by (simp add: configured600_def constructor_def)
  have h2: "isRunning (startTyping 5 configured600)" by (simp add: sample_started)
  note t1 = startTyping_idempotent [of 99 5 configured600]
  note t2 = startTyping_idempotent [of 99 99 "startTyping 5 configured600"]
  from t1 have c1: "startTyping 99 (startTyping 5 configured600) = startTyping 5 configured600"
    by blast
  from t2 h2 have c2: "startTyping 99 (startTyping 5 configured600) = startTyping 5 configured600"
    by blast
  from t1 h1 have "startTyping 5 configured600 =
        configured600\<lparr>isRunning := True, isPaused := False,
          stats := (stats configured600)\<lparr>startTime := Some 5, charactersTyped := 0\<rparr>,
          timers := timers configured600 @ [(nextTimerId configured600, msToWait (config configured600))],
          nextTimerId := Suc (nextTimerId configured600),
          intervalId := Some (nextTimerId configured600)\<rparr>"
    by blast
  then have c3: "startTyping 5 configured600 =
        configured600\<lparr>isRunning := True, isPaused := False,
          stats := \<lparr> charactersTyped = 0, startTime = Some 5, lastTypedTime = None \<rparr>,
          timers := [(1, 1000)], nextTimerId := 2, intervalId := Some 1\<rparr>"
    by (simp add: configured600_def constructor_def)
  from h1 h2 c2 c3 show ?thesis by simp
qed

subsection \<open>Ticks\<close>

lemma typeNextCharacter_success:
  assumes "targetElement (config s) = Some el" and "innerHTML pg el \<noteq> []" and "activeElement pg = Some a"
  shows "typeNextCharacter pg now s =
     Returned (s\<lparr>dispatched := dispatched s @
                    [(a, \<lparr> eventType = ''keypress'', key = innerHTML pg el,
                           keyCode = (if innerHTML pg el = '' '' then 32
                                      else of_char (hd (innerHTML pg el))),
                           altKey = False, ctrlKey = False, shiftKey = False,
                           metaKey = False, bubbles = True, cancelable = True \<rparr>)],
                  stats := (stats s)\<lparr>charactersTyped := charactersTyped (stats s) + 1,
                                     lastTypedTime := Some now\<rparr>\<rparr>)"
  using assms by (simp add: typeNextCharacter_def typeNextCharacter_try_cases)

lemma typeNextCharacter_skip:
  assumes "targetElement (config s) = None
         \<or> (\<exists>el. targetElement (config s) = Some el \<and> (innerHTML pg el = [] \<or> activeElement pg = None))"
  shows "typeNextCharacter pg now s = Returned s"
  using assms by (auto simp: typeNextCharacter_def typeNextCharacter_try_cases)

lemma timerFires_success:
  assumes "i \<in> set (map fst (timers s))" and "\<not> isPaused s"
    and "targetElement (config s) = Some el" and "successful el pg"
  shows "stats (timerFires i pg now s)
           = (stats s)\<lparr>charactersTyped := charactersTyped (stats s) + 1, lastTypedTime := Some now\<rparr>"
proof -
  from assms(4) obtain a where "innerHTML pg el \<noteq> []" "activeElement pg = Some a"
    by (auto simp: successful_def)
  from typeNextCharacter_success [OF assms(3) this] assms(1,2) show ?thesis
    by (simp add: timerFires_def intervalCallback_def)
qed

lemma ticks_count:
  assumes "i \<in> set (map fst (timers s))" and "\<not> isPaused s"
    and "targetElement (config s) = Some el" and "\<forall>p\<in>set ps. successful el (fst p)"
  shows "charactersTyped (stats (ticks i ps s)) = charactersTyped (stats s) + int (length ps)"
  using assms
proof (induction ps arbitrary: s)
  case Nil
  then show ?case by simp
next
  case (Cons p ps)
  let ?s1 = "timerFires i (fst p) (snd p) s"
  from Cons.prems have ok: "successful el (fst p)" by simp
  have st: "charactersTyped (stats ?s1) = charactersTyped (stats s) + 1"
    using timerFires_success [OF Cons.prems(1,2,3) ok] by simp
  have "charactersTyped (stats (ticks i ps ?s1)) = charactersTyped (stats ?s1) + int (length ps)"
  proof (rule Cons.IH)
    show "i \<in> set (map fst (timers ?s1))" using Cons.prems(1) by (simp add: timerFires_frame)
    show "\<not> isPaused ?s1" using Cons.prems(2) by (simp add: timerFires_frame)
    show "targetElement (config ?s1) = Some el" using Cons.prems(3) by (simp add: timerFires_frame)
    show "\<forall>p\<in>set ps. successful el (fst p)" using Cons.prems(4) by simp
  qed
  with st show ?case by simp
qed

lemma ticks_frame:
  "isRunning (ticks i ps s) = isRunning s"
  "isPaused (ticks i ps s) = isPaused s"
  "config (ticks i ps s) = config s"
  "timers (ticks i ps s) = timers s"
  "intervalId (ticks i ps s) = intervalId s"
  by (induction ps arbitrary: s) (simp_all add: timerFires_frame)

text \<open>
  C5. Start a session that is not running, on a controller with a target element, and
  let the session's timer fire \<open>N\<close> times, each time on a page where the target
  element holds a character and some element has the focus. Then \<open>charactersTyped\<close> is
  \<open>N\<close> and the session is running, and \<open>getStatus\<close> reports both.
\<close>

theorem successful_ticks_are_counted:
  assumes "\<not> isRunning s"
    and "targetElement (config s) = Some el"
    and "intervalId (startTyping t0 s) = Some i"
    and "\<forall>p\<in>set ps. successful el (fst p)"
  shows "charactersTyped (stats (ticks i ps (startTyping t0 s))) = int (length ps)
       \<and> isRunning (ticks i ps (startTyping t0 s))
       \<and> status_charactersTyped (getStatus now (ticks i ps (startTyping t0 s))) = int (length ps)
       \<and> status_isRunning (getStatus now (ticks i ps (startTyping t0 s)))"
proof -
  let ?s1 = "startTyping t0 s"
  from assms(1,3) have i: "i = nextTimerId s" by (simp add: startTyping_idle)
  have a: "i \<in> set (map fst (timers ?s1))" using assms(1) i by (simp add: startTyping_idle)
  have b: "\<not> isPaused ?s1" using assms(1) by (simp add: startTyping_idle)
  have c: "targetElement (config ?s1) = Some el" using assms(1,2) by (simp add: startTyping_idle)
  have z: "charactersTyped (stats ?s1) = 0" using assms(1) by (simp add: startTyping_idle)
  have r: "isRunning ?s1" using assms(1) by (simp add: startTyping_idle)
  from ticks_count [OF a b c assms(4)] z
  have n: "charactersTyped (stats (ticks i ps ?s1)) = int (length ps)" by simp
  from r have "isRunning (ticks i ps ?s1)" by (simp add: ticks_frame)
  with n show ?thesis by (simp add: getStatus_def)
qed

theorem successful_ticks_are_counted_witness:
  "isRunning configured600 = False
   \<and> targetElement (config configured600) = Some 7
   \<and> intervalId (startTyping 0 configured600) = Some 1
   \<and> successful 7 (samplePage ''a'' (Some 3))
   \<and> successful 7 (samplePage ''b'' (Some 3))
   \<and> successful 7 (samplePage '' '' (Some 4))
   \<and> status_charactersTyped (getStatus 5000
        (ticks 1 [(samplePage ''a'' (Some 3), 1000), (samplePage ''b'' (Some 3), 2000),
                  (samplePage '' '' (Some 4), 3000)] (startTyping 0 configured600))) = 3
   \<and> status_isRunning (getStatus 5000
        (ticks 1 [(samplePage ''a'' (Some 3), 1000), (samplePage ''b'' (Some 3), 2000),
                  (samplePage '' '' (Some 4), 3000)] (startTyping 0 configured600))) = True"
proof -
  let ?ps = "[(samplePage ''a'' (Some 3), 1000), (samplePage ''b'' (Some 3), 2000),
              (samplePage '' '' (Some 4), 3000)]"
  have h1: "\<not> isRunning configured600" by (simp add: configured600_def constructor_def)
  have h2: "targetElement (config configured600) = Some 7" by (simp add: configured600_def)
  have h3: "intervalId (startTyping 0 configured600) = Some 1" by (simp add: sample_started)
  have s1: "successful 7 (samplePage ''a'' (Some 3))" by (simp add: successful_def samplePage_def)
  have s2: "successful 7 (samplePage ''b'' (Some 3))" by (simp add: successful_def samplePage_def)
  have s3: "successful 7 (samplePage '' '' (Some 4))" by (simp add: successful_def samplePage_def)
  have h4: "\<forall>p\<in>set ?ps. successful 7 (fst p)" using s1 s2 s3 by simp
  from successful_ticks_are_counted [OF h1 h2 h3 h4, of 5000]
  have c: "status_charactersTyped (getStatus 5000 (ticks 1 ?ps (startTyping 0 configured600))) = 3
         \<and> status_isRunning (getStatus 5000 (ticks 1 ?ps (startTyping 0 configured600))) = True"
    by simp
  from h1 h2 h3 s1 s2 s3 c show ?thesis by simp
qed

text \<open>
  C6. A tick that finds no target character, because the target element's content is
  the empty string or because there is no target element (reading its content throws,
  and the empty \<open>catch\<close> swallows it), returns normally and leaves the whole state as it
  was: \<open>charactersTyped\<close>, the list of dispatched events and \<open>isRunning\<close> included.
\<close>

theorem tick_without_character_is_noop:
  assumes "targetElement (config s) = None
         \<or> (\<exists>el. targetElement (config s) = Some el \<and> innerHTML pg el = [])"
  shows "typeNextCharacter pg now s = Returned s
       \<and> intervalCallback pg now s = Returned s
       \<and> timerFires i pg now s = s"
proof -
  from assms have "typeNextCharacter pg now s = Returned s"
    by (intro typeNextCharacter_skip) auto
  then show ?thesis by (simp add: intervalCallback_def timerFires_def)
qed

theorem tick_without_character_is_noop_witness:
  "targetElement (config (startTyping 0 configured600)) = Some 7
   \<and> innerHTML (samplePage [] (Some 3)) 7 = []
   \<and> isRunning (startTyping 0 configured600) = True
   \<and> typeNextCharacter (samplePage [] (Some 3)) 1000 (startTyping 0 configured600)
       = Returned (startTyping 0 configured600)
   \<and> timerFires 1 (samplePage [] (Some 3)) 1000 (startTyping 0 configured600)
       = startTyping 0 configured600
   \<and> targetElement (config (startTyping 0 constructor :: rat typewriter)) = None
   \<and> typeNextCharacter (samplePage ''a'' (Some 3)) 1000 (startTyping 0 constructor :: rat typewriter)
       = Returned (startTyping 0 constructor)"
proof -
  have h1: "targetElement (config (startTyping 0 configured600)) = Some 7"
    unfolding sample_started by (simp add: configured600_def)
  have h2: "innerHTML (samplePage [] (Some 3)) 7 = []" by (simp add: samplePage_def)
  have h3: "isRunning (startTyping 0 configured600)" by (simp add: sample_started)
  have h4: "targetElement (config (startTyping 0 constructor :: rat typewriter)) = None"
    by (simp add: startTyping_def setInterval_def constructor_def)
  from h1 h2 have a: "targetElement (config (startTyping 0 configured600)) = None
      \<or> (\<exists>el. targetElement (config (startTyping 0 configured600)) = Some el
             \<and> innerHTML (samplePage [] (Some 3)) el = [])" by blast
  from h4 have b: "targetElement (config (startTyping 0 constructor :: rat typewriter)) = None
      \<or> (\<exists>el. targetElement (config (startTyping 0 constructor :: rat typewriter)) = Some el
             \<and> innerHTML (samplePage ''a'' (Some 3)) el = [])" by blast
  note t1 = tick_without_character_is_noop [OF a, of 1000 1]
  note t2 = tick_without_character_is_noop [OF b, of 1000 1]
  from h1 h2 h3 h4 t1 t2 show ?thesis by simp
qed

text \<open>
  C10. A tick that finds a target character while no element has the focus returns
  normally and leaves the whole state as it was: nothing is dispatched,
  \<open>charactersTyped\<close> and \<open>lastTypedTime\<close> keep their values, the session keeps running.
\<close>

theorem tick_without_focus_is_noop:
  assumes "targetElement (config s) = Some el" and "innerHTML pg el \<noteq> []" and "activeElement pg = None"
  shows "typeNextCharacter pg now s = Returned s
       \<and> intervalCallback pg now s = Returned s
       \<and> timerFires i pg now s = s"
proof -
  from assms have "typeNextCharacter pg now s = Returned s"
    by (intro typeNextCharacter_skip) auto
  then show ?thesis by (simp add: intervalCallback_def timerFires_def)
qed

theorem tick_without_focus_is_noop_witness:
  "targetElement (config (startTyping 0 configured600)) = Some 7
   \<and> innerHTML (samplePage ''a'' None) 7 = ''a''
   \<and> activeElement (samplePage ''a'' None) = None
   \<and> isRunning (startTyping 0 configured600) = True
   \<and> typeNextCharacter (samplePage ''a'' None) 1000 (startTyping 0 configured600)
       = Returned (startTyping 0 configured600)
   \<and> timerFires 1 (samplePage ''a'' None) 1000 (startTyping 0 configured600)
       = startTyping 0 configured600"
proof -
  have h1: "targetElement (config (startTyping 0 configured600)) = Some 7"
    unfolding sample_started by (simp add: configured600_def)
  have h2: "innerHTML (samplePage ''a'' None) 7 = ''a''" by (simp add: samplePage_def)
  then have h2': "innerHTML (samplePage ''a'' None) 7 \<noteq> []" by simp
  have h3: "activeElement (samplePage ''a'' None) = None" by (simp add: samplePage_def)
  have h4: "isRunning (startTyping 0 configured600)" by (simp add: sample_started)
  note t = tick_without_focus_is_noop [OF h1 h2' h3, of 1000 1]
  from h1 h2 h3 h4 t show ?thesis by simp
qed

text \<open>
  C8. A tick that finds a target character and a focused element dispatches exactly
  one event, to the focused element: a \<open>keypress\<close> whose \<open>key\<close> is the target element's
  content, whose \<open>keyCode\<close> is 32 when that content is a single space and the code of
  its first character otherwise, with no modifier key, bubbling and cancelable.
\<close>

theorem dispatched_keystroke:
  assumes "targetElement (config s) = Some el" and "innerHTML pg el \<noteq> []" and "activeElement pg = Some a"
  shows "dispatched (state_of (typeNextCharacter pg now s)) =
           dispatched s @
             [(a, \<lparr> eventType = ''keypress'', key = innerHTML pg el,
                    keyCode = (if innerHTML pg el = '' '' then 32 else of_char (hd (innerHTML pg el))),
                    altKey = False, ctrlKey = False, shiftKey = False, metaKey = False,
                    bubbles = True, cancelable = True \<rparr>)]"
  using typeNextCharacter_success [OF assms, of now] by simp

theorem dispatched_keystroke_witness:
  "targetElement (config (startTyping 0 configured600)) = Some 7
   \<and> innerHTML (samplePage ''a'' (Some 3)) 7 = ''a''
   \<and> activeElement (samplePage ''a'' (Some 3)) = Some 3
   \<and> dispatched (state_of (typeNextCharacter (samplePage ''a'' (Some 3)) 1000 (startTyping 0 configured600)))
       = [(3, \<lparr> eventType = ''keypress'', key = ''a'', keyCode = 97,
                altKey = False, ctrlKey = False, shiftKey = False, metaKey = False,
                bubbles = True, cancelable = True \<rparr>)]
   \<and> dispatched (state_of (typeNextCharacter (samplePage '' '' (Some 3)) 1000 (startTyping 0 configured600)))
       = [(3, \<lparr> eventType = ''keypress'', key = '' '', keyCode = 32,
                altKey = False, ctrlKey = False, shiftKey = False, metaKey = False,
                bubbles = True, cancelable = True \<rparr>)]"
proof -
  have h1: "targetElement (config (startTyping 0 configured600)) = Some 7"
    unfolding sample_started by (simp add: configured600_def)
  have d: "dispatched (startTyping 0 configured600) = []"
    unfolding sample_started by (simp add: configured600_def constructor_def)
  have h2: "innerHTML (samplePage ''a'' (Some 3)) 7 = ''a''" by (simp add: samplePage_def)
  then have h2': "innerHTML (samplePage ''a'' (Some 3)) 7 \<noteq> []" by simp
  have h3: "activeElement (samplePage ''a'' (Some 3)) = Some 3" by (simp add: samplePage_def)
  have k2: "innerHTML (samplePage '' '' (Some 3)) 7 = '' ''" by (simp add: samplePage_def)
  then have k2': "innerHTML (samplePage '' '' (Some 3)) 7 \<noteq> []" by simp
  have k3: "activeElement (samplePage '' '' (Some 3)) = Some 3" by (simp add: samplePage_def)
  from dispatched_keystroke [OF h1 h2' h3, of 1000] d h2
  have c1: "dispatched (state_of (typeNextCharacter (samplePage ''a'' (Some 3)) 1000 (startTyping 0 configured600)))
       = [(3, \<lparr> eventType = ''keypress'', key = ''a'', keyCode = 97,
                altKey = False, ctrlKey = False, shiftKey = False, metaKey = False,
                bubbles = True, cancelable = True \<rparr>)]"
    by simp
  from dispatched_keystroke [OF h1 k2' k3, of 1000] d k2
  have c2: "dispatched (state_of (typeNextCharacter (samplePage '' '' (Some 3)) 1000 (startTyping 0 configured600)))
       = [(3, \<lparr> eventType = ''keypress'', key = '' '', keyCode = 32,
                altKey = False, ctrlKey = False, shiftKey = False, metaKey = False,
                bubbles = True, cancelable = True \<rparr>)]"
    by simp
  from h1 h2 h3 c1 c2 show ?thesis by simp
qed

subsection \<open>Pausing\<close>

lemma togglePauses_idle: "\<not> isRunning s \<Longrightarrow> togglePauses n s = s"
  by (induction n arbitrary: s) (simp_all add: togglePause_idle)

lemma togglePauses_frame:
  "isRunning (togglePauses n s) = isRunning s"
  "stats (togglePauses n s) = stats s"
  "config (togglePauses n s) = config s"
  "timers (togglePauses n s) = timers s"
  "dispatched (togglePauses n s) = dispatched s"
  by (induction n arbitrary: s) (simp_all add: togglePause_frame)

lemma togglePauses_running:
  "isRunning s \<Longrightarrow> isPaused (togglePauses n s) = (if even n then isPaused s else \<not> isPaused s)"
proof (induction n arbitrary: s)
  case 0
  then show ?case by simp
next
  case (Suc n)
  let ?s1 = "state_of (togglePause s)"
  from Suc.prems have r: "isRunning ?s1" and p: "isPaused ?s1 = (\<not> isPaused s)"
    by (simp_all add: togglePause_frame)
  from Suc.IH [OF r] p show ?case by simp
qed

text \<open>
  C7. \<open>togglePause\<close> returns at once, with the state as it was, when the session is
  not running. When it is running, each call negates \<open>isPaused\<close>, so that after \<open>n\<close>
  calls the session is paused exactly when it was paused before and \<open>n\<close> is even, or
  was not and \<open>n\<close> is odd; the session stays running. No call changes the statistics,
  \<open>charactersTyped\<close> among them. (With no overlay the call throws after the flag is
  negated; the state is the same as with one.)
\<close>

theorem togglePause_alternates:
  "(\<not> isRunning s \<longrightarrow> togglePause s = Returned s \<and> togglePauses n s = s)
   \<and> (isRunning s \<longrightarrow>
        isPaused (state_of (togglePause s)) = (\<not> isPaused s)
        \<and> isPaused (togglePauses n s) = (if even n then isPaused s else \<not> isPaused s)
        \<and> isRunning (togglePauses n s))
   \<and> stats (state_of (togglePause s)) = stats s
   \<and> charactersTyped (stats (togglePauses n s)) = charactersTyped (stats s)"
  by (simp add: togglePause_idle togglePauses_idle togglePause_frame togglePauses_frame
      togglePauses_running)

theorem togglePause_alternates_witness:
  "isRunning configured600 = False
   \<and> togglePause configured600 = Returned configured600
   \<and> isRunning (startTyping 0 configured600) = True
   \<and> isPaused (startTyping 0 configured600) = False
   \<and> isPaused (state_of (togglePause (startTyping 0 configured600))) = True
   \<and> isPaused (togglePauses 4 (startTyping 0 configured600)) = False
   \<and> isPaused (togglePauses 5 (startTyping 0 configured600)) = True
   \<and> isRunning (togglePauses 5 (startTyping 0 configured600)) = True
   \<and> charactersTyped (stats (togglePauses 5 (startTyping 0 configured600)))
       = charactersTyped (stats (startTyping 0 configured600))"
proof -
  have h1: "\<not> isRunning configured600" by (simp add: configured600_def constructor_def)
  have h2: "isRunning (startTyping 0 configured600)" by (simp add: sample_started)
  have h3: "\<not> isPaused (startTyping 0 configured600)" by (simp add: sample_started)
  note t0 = togglePause_alternates [of configured600 0]
  note t4 = togglePause_alternates [of "startTyping 0 configured600" 4]
  note t5 = togglePause_alternates [of "startTyping 0 configured600" 5]
  from t0 h1 have c0: "togglePause configured600 = Returned configured600" by blast
  from t4 h2 h3 have c1: "isPaused (state_of (togglePause (startTyping 0 configured600)))" by blast
  from t4 h2 h3 have c4: "\<not> isPaused (togglePauses 4 (startTyping 0 configured600))" by simp
  from t5 h2 h3 have c5: "isPaused (togglePauses 5 (startTyping 0 configured600))" by simp
  from t5 h2 have c6: "isRunning (togglePauses 5 (startTyping 0 configured600))" by blast
  from t5 have c7: "charactersTyped (stats (togglePauses 5 (startTyping 0 configured600)))
       = charactersTyped (stats (startTyping 0 configured600))" by blast
  from h1 h2 h3 c0 c1 c4 c5 c6 c7 show ?thesis by simp
qed

text \<open>
  C9. \<open>stop\<close> leaves the statistics as they are: \<open>charactersTyped\<close>, \<open>startTime\<close> and
  \<open>lastTypedTime\<close> keep their values. So after \<open>stop\<close> the status reports
  \<open>isRunning\<close> false and the character count of the stopped session, and, for a
  session that was started at a time \<open>t\<close> (\<open>Date.now()\<close> is never 0), a \<open>timeRunning\<close> of
  \<open>now - t\<close>, which grows with the clock.
\<close>

theorem stop_keeps_statistics:
  "stats (stop s) = stats s
   \<and> status_charactersTyped (getStatus now (stop s)) = charactersTyped (stats s)
   \<and> status_isRunning (getStatus now (stop s)) = False
   \<and> (startTime (stats s) = Some t \<and> t \<noteq> 0 \<longrightarrow>
        status_timeRunning (getStatus now (stop s)) = now - t
        \<and> (now < now' \<longrightarrow>
             status_timeRunning (getStatus now (stop s)) < status_timeRunning (getStatus now' (stop s))))"
proof (intro conjI impI)
  show kept: "stats (stop s) = stats s" by (rule stop_fields)
  then show "status_charactersTyped (getStatus now (stop s)) = charactersTyped (stats s)"
    by (simp add: getStatus_def)
  show "status_isRunning (getStatus now (stop s)) = False"
    by (simp add: getStatus_def stop_fields)
  have elapsed: "status_timeRunning (getStatus c (stop s)) = c - t"
    if "startTime (stats s) = Some t \<and> t \<noteq> 0" for c
    using that kept by (simp add: getStatus_def)
  show "status_timeRunning (getStatus now (stop s)) = now - t"
    if "startTime (stats s) = Some t \<and> t \<noteq> 0"
    using that by (rule elapsed)
  show "status_timeRunning (getStatus now (stop s)) < status_timeRunning (getStatus now' (stop s))"
    if "startTime (stats s) = Some t \<and> t \<noteq> 0" and "now < now'"
    using that by (simp add: elapsed)
qed

theorem stop_keeps_statistics_witness:
  "startTime (stats (timerFires 1 (samplePage ''a'' (Some 3)) 1000 (startTyping 500 configured600))) = Some 500
   \<and> charactersTyped (stats (timerFires 1 (samplePage ''a'' (Some 3)) 1000 (startTyping 500 configured600))) = 1
   \<and> status_charactersTyped (getStatus 2000
        (stop (timerFires 1 (samplePage ''a'' (Some 3)) 1000 (startTyping 500 configured600)))) = 1
   \<and> status_isRunning (getStatus 2000
        (stop (timerFires 1 (samplePage ''a'' (Some 3)) 1000 (startTyping 500 configured600)))) = False
   \<and> status_timeRunning (getStatus 2000
        (stop (timerFires 1 (samplePage ''a'' (Some 3)) 1000 (startTyping 500 configured600)))) = 1500
   \<and> status_timeRunning (getStatus 2000
        (stop (timerFires 1 (samplePage ''a'' (Some 3)) 1000 (startTyping 500 configured600))))
      < status_timeRunning (getStatus 9000
        (stop (timerFires 1 (samplePage ''a'' (Some 3)) 1000 (startTyping 500 configured600))))"
proof -
  let ?s = "timerFires 1 (samplePage ''a'' (Some 3)) 1000 (startTyping 500 configured600)"
  have h1: "startTime (stats ?s) = Some 500"
    unfolding sample_started
    by (simp add: timerFires_def intervalCallback_def typeNextCharacter_def
        typeNextCharacter_try_cases configured600_def constructor_def samplePage_def)
  have h2: "charactersTyped (stats ?s) = 1"
    unfolding sample_started
    by (simp add: timerFires_def intervalCallback_def typeNextCharacter_def
        typeNextCharacter_try_cases configured600_def constructor_def samplePage_def)
  have h3: "(500::int) \<noteq> 0" by simp
  have h4: "(2000::int) < 9000" by simp
  note t = stop_keeps_statistics [of ?s 2000 500 9000]
  from t h2 have c1: "status_charactersTyped (getStatus 2000 (stop ?s)) = 1" by simp
  from t have c2: "status_isRunning (getStatus 2000 (stop ?s)) = False" by blast
  from t h1 h3 have c3: "status_timeRunning (getStatus 2000 (stop ?s)) = 1500" by simp
  from t h1 h3 h4 have c4: "status_timeRunning (getStatus 2000 (stop ?s))
      < status_timeRunning (getStatus 9000 (stop ?s))" by blast
  from h1 h2 c1 c2 c3 c4 show ?thesis by simp
qed

end
